theory Spec2Isabelle
  imports
    Main
    "HOL-Library.Char_ord"
    "HOL-Library.List_Lexorder"
    "HOL-Library.Sublist"
begin

section \<open>The subscription table\<close>

text \<open>
  The table \<^verbatim>\<open>subs\<close> of \<^verbatim>\<open>init_db\<close>. The column \<^verbatim>\<open>kind\<close> carries the constraint
  \<^verbatim>\<open>CHECK(kind IN ('hourly','daily'))\<close>, so a stored row holds one of two values; the text
  of the value is kept by \<open>kind_text\<close>, since \<^verbatim>\<open>ORDER BY kind\<close> compares the text.
  \<^verbatim>\<open>daily_time\<close> is a nullable text column. \<^verbatim>\<open>created_at\<close> is the clock reading at
  insertion (the source stores its ISO rendering, which nothing reads back).
\<close>

datatype sub_kind = Hourly | Daily

fun kind_text :: "sub_kind \<Rightarrow> string" where
  "kind_text Hourly = ''hourly''"
| "kind_text Daily = ''daily''"

definition kind_of_text :: "string \<Rightarrow> sub_kind option" where
  "kind_of_text k =
     (if k = ''hourly'' then Some Hourly
      else if k = ''daily'' then Some Daily
      else None)"

record sub_row =
  row_id :: nat
  user_id :: int
  chat_id :: int
  kind :: sub_kind
  daily_time :: "string option"
  created_at :: nat

text \<open>
  The database file: the rows in rowid order and the counter behind \<^verbatim>\<open>AUTOINCREMENT\<close>
  (the largest id ever handed out).
\<close>

record store =
  subs :: "sub_row list"
  last_id :: nat

definition init_db :: store where
  "init_db = \<lparr>subs = [], last_id = 0\<rparr>"

datatype py_exception =
  ValueError | IntegrityError | FetchError | PersistenceError | DeliveryError

text \<open>Python's truth value of an optional string: \<^verbatim>\<open>None\<close> and the empty string are false.\<close>

fun truthy :: "string option \<Rightarrow> bool" where
  "truthy None = False"
| "truthy (Some t) = (t \<noteq> [])"

text \<open>
  \<^verbatim>\<open>add_sub\<close>: the \<^verbatim>\<open>ValueError\<close> for a daily subscription without a time, the
  \<^verbatim>\<open>DELETE\<close> of the user's rows of one kind (every kind other than \<^verbatim>\<open>'hourly'\<close> takes the
  \<^verbatim>\<open>else\<close> branch), the \<^verbatim>\<open>INSERT\<close>, which the \<^verbatim>\<open>CHECK\<close> constraint refuses for any
  other kind, and the commit. An exception leaves the connection without a commit, so the
  database is as it was.
\<close>

definition add_sub ::
  "int \<Rightarrow> int \<Rightarrow> string \<Rightarrow> string option \<Rightarrow> nat \<Rightarrow> store \<Rightarrow> py_exception + store" where
  "add_sub uid cid k dt now s =
     (if k = ''daily'' \<and> \<not> truthy dt then Inl ValueError
      else
        let kept =
              (if k = ''hourly''
               then filter (\<lambda>r. \<not> (user_id r = uid \<and> kind r = Hourly)) (subs s)
               else filter (\<lambda>r. \<not> (user_id r = uid \<and> kind r = Daily)) (subs s))
        in case kind_of_text k of
             None \<Rightarrow> Inl IntegrityError
           | Some kd \<Rightarrow>
               Inr \<lparr>subs = kept @
                      [\<lparr>row_id = last_id s + 1, user_id = uid, chat_id = cid, kind = kd,
                        daily_time = dt, created_at = now\<rparr>],
                    last_id = last_id s + 1\<rparr>)"

text \<open>\<^verbatim>\<open>remove_all_subs\<close>: the new database and \<^verbatim>\<open>cur.rowcount\<close>, the number of rows deleted.\<close>

definition remove_all_subs :: "int \<Rightarrow> store \<Rightarrow> store \<times> nat" where
  "remove_all_subs uid s =
     (s\<lparr>subs := filter (\<lambda>r. user_id r \<noteq> uid) (subs s)\<rparr>,
      length (filter (\<lambda>r. user_id r = uid) (subs s)))"

text \<open>
  \<^verbatim>\<open>list_subs\<close>: the columns \<^verbatim>\<open>kind, daily_time\<close> of the user's rows,
  \<^verbatim>\<open>ORDER BY kind\<close> (ascending, comparing the text). Rows of equal kind are kept in rowid
  order.
\<close>

definition list_subs :: "int \<Rightarrow> store \<Rightarrow> (string \<times> string option) list" where
  "list_subs uid s =
     map (\<lambda>r. (kind_text (kind r), daily_time r))
       (sort_key (\<lambda>r. kind_text (kind r)) (filter (\<lambda>r. user_id r = uid) (subs s)))"

text \<open>The number of subscriptions of one kind that a user holds.\<close>

definition count_kind :: "store \<Rightarrow> int \<Rightarrow> sub_kind \<Rightarrow> nat" where
  "count_kind s uid k = length (filter (\<lambda>r. user_id r = uid \<and> kind r = k) (subs s))"

definition rows_of :: "store \<Rightarrow> int \<Rightarrow> sub_row list" where
  "rows_of s uid = filter (\<lambda>r. user_id r = uid) (subs s)"

text \<open>
  A sequence of store operations, as the command handlers issue them: \<^verbatim>\<open>add_sub\<close> (an
  operation that raises leaves the table as it was) and \<^verbatim>\<open>remove_all_subs\<close>.
\<close>

datatype store_op =
  Upsert int int string "string option" nat
| RemoveAll int

fun apply_store_op :: "store_op \<Rightarrow> store \<Rightarrow> store" where
  "apply_store_op (Upsert uid cid k dt now) s =
     (case add_sub uid cid k dt now s of Inl e \<Rightarrow> s | Inr s' \<Rightarrow> s')"
| "apply_store_op (RemoveAll uid) s = fst (remove_all_subs uid s)"


section \<open>The clock and its rendering\<close>

text \<open>
  The UTC clock is read in whole seconds since midnight of some day. \<open>minute_of\<close> is
  \<^verbatim>\<open>now_utc.minute\<close>, \<open>strftime_HM\<close> is \<^verbatim>\<open>now_utc.strftime("%H:%M")\<close>, and
  \<open>fmt_02d\<close> is the format \<^verbatim>\<open>:02d\<close>: the decimal digits, padded with zeros on the left
  to at least two characters.
\<close>

definition hour_of :: "nat \<Rightarrow> nat" where
  "hour_of t = (t div 3600) mod 24"

definition minute_of :: "nat \<Rightarrow> nat" where
  "minute_of t = (t div 60) mod 60"

definition digit_char :: "nat \<Rightarrow> char" where
  "digit_char d = ''0123456789'' ! d"

fun dec :: "nat \<Rightarrow> string" where
  "dec n = (if n < 10 then [digit_char n] else dec (n div 10) @ [digit_char (n mod 10)])"

declare dec.simps [simp del]

definition fmt_02d :: "nat \<Rightarrow> string" where
  "fmt_02d n = replicate (2 - length (dec n)) CHR ''0'' @ dec n"

definition strftime_HM :: "nat \<Rightarrow> string" where
  "strftime_HM t = fmt_02d (hour_of t) @ '':'' @ fmt_02d (minute_of t)"


section \<open>The notifier loop\<close>

text \<open>
  \<^verbatim>\<open>SELECT DISTINCT chat_id\<close>: the chat ids of the matching rows, each once, in the order
  of their first row. The two queries of \<^verbatim>\<open>notifier_loop\<close> follow; a row whose
  \<^verbatim>\<open>daily_time\<close> is null matches no time.
\<close>

definition sql_distinct :: "'a list \<Rightarrow> 'a list" where
  "sql_distinct xs = rev (remdups (rev xs))"

definition distinct_chats_hourly :: "store \<Rightarrow> int list" where
  "distinct_chats_hourly s =
     sql_distinct (map chat_id (filter (\<lambda>r. kind r = Hourly) (subs s)))"

definition distinct_chats_daily :: "string \<Rightarrow> store \<Rightarrow> int list" where
  "distinct_chats_daily hhmm s =
     sql_distinct
       (map chat_id (filter (\<lambda>r. kind r = Daily \<and> daily_time r = Some hhmm) (subs s)))"

text \<open>
  What the world outside answers during one iteration: the result of \<^verbatim>\<open>get_rates()\<close> (a
  snapshot of type \<open>'r\<close> or an exception), whether opening the database or either query
  raises, what \<^verbatim>\<open>bot.send_message\<close> does for each chat, and how many seconds the body of
  the \<^verbatim>\<open>try\<close> takes. Every exception here is an instance of Python's \<^verbatim>\<open>Exception\<close>.
\<close>

record 'r tick_env =
  get_rates :: "py_exception + 'r"
  connect :: "py_exception option"
  query_hourly :: "py_exception option"
  query_daily :: "py_exception option"
  send_message :: "int \<Rightarrow> py_exception option"
  elapsed :: nat

text \<open>
  A call of \<^verbatim>\<open>bot.send_message(chat, fmt_rates(rates))\<close> is recorded with the chat, the
  snapshot that was rendered and the exception it raised, if any.
\<close>

type_synonym 'r attempt = "int \<times> 'r \<times> py_exception option"

text \<open>
  The \<^verbatim>\<open>for row in ...: await bot.send_message(...)\<close> loop: the first exception leaves the
  loop, and the remaining rows are not visited.
\<close>

fun send_each ::
  "(int \<Rightarrow> py_exception option) \<Rightarrow> 'r \<Rightarrow> int list \<Rightarrow> py_exception option \<times> 'r attempt list" where
  "send_each sm r [] = (None, [])"
| "send_each sm r (c # cs) =
     (case sm c of
        Some e \<Rightarrow> (Some e, [(c, r, Some e)])
      | None \<Rightarrow> (case send_each sm r cs of (res, tr) \<Rightarrow> (res, (c, r, None) # tr)))"

text \<open>
  The body of the \<^verbatim>\<open>try\<close>: the exception that leaves it, if any, and the calls of
  \<^verbatim>\<open>send_message\<close> made before.
\<close>

definition tick_body ::
  "'r tick_env \<Rightarrow> nat \<Rightarrow> store \<Rightarrow> py_exception option \<times> 'r attempt list" where
  "tick_body env now_utc s =
     (let minute = minute_of now_utc;
          time_hhmm = strftime_HM now_utc
      in case get_rates env of
           Inl e \<Rightarrow> (Some e, [])
         | Inr rates \<Rightarrow>
             (case connect env of
                Some e \<Rightarrow> (Some e, [])
              | None \<Rightarrow>
                  (case (if minute = 0
                         then (case query_hourly env of
                                 Some e \<Rightarrow> (Some e, [])
                               | None \<Rightarrow>
                                   send_each (send_message env) rates (distinct_chats_hourly s))
                         else (None, [])) of
                     (Some e, tr) \<Rightarrow> (Some e, tr)
                   | (None, tr) \<Rightarrow>
                       (case query_daily env of
                          Some e \<Rightarrow> (Some e, tr)
                        | None \<Rightarrow>
                            (case send_each (send_message env) rates
                                    (distinct_chats_daily time_hhmm s) of
                               (res, tr') \<Rightarrow> (res, tr @ tr'))))))"

text \<open>
  The state the loop runs in: the clock, the database, every call of \<^verbatim>\<open>send_message\<close> so
  far and every exception printed by the \<^verbatim>\<open>except\<close> clause.
\<close>

record 'r world =
  clock :: nat
  db :: store
  outbox :: "'r attempt list"
  printed :: "py_exception list"

text \<open>
  One iteration of \<^verbatim>\<open>while True\<close>: the body, \<^verbatim>\<open>except Exception\<close> printing what was
  raised, and \<^verbatim>\<open>finally\<close> sleeping 60 seconds, counted from the end of the body.
\<close>

definition tick :: "'r tick_env \<Rightarrow> 'r world \<Rightarrow> 'r world" where
  "tick env w =
     (case tick_body env (clock w) (db w) of
        (res, tr) \<Rightarrow>
          w\<lparr>outbox := outbox w @ tr,
            printed := printed w @ (case res of None \<Rightarrow> [] | Some e \<Rightarrow> [e]),
            clock := clock w + elapsed env + 60\<rparr>)"

text \<open>
  The loop never returns; its first iterations are run against the list of what the world
  answers in each of them.
\<close>

fun notifier_loop :: "'r tick_env list \<Rightarrow> 'r world \<Rightarrow> 'r world" where
  "notifier_loop [] w = w"
| "notifier_loop (env # envs) w = notifier_loop envs (tick env w)"

text \<open>The clock readings \<^verbatim>\<open>now_utc\<close> of the iterations of a run.\<close>

fun tick_starts :: "'r tick_env list \<Rightarrow> 'r world \<Rightarrow> nat list" where
  "tick_starts [] w = []"
| "tick_starts (env # envs) w = clock w # tick_starts envs (tick env w)"

text \<open>
  The chats due at a clock reading: the answer of the hourly query, asked only in minute 0,
  and the answer of the daily query for the rendered time.
\<close>

definition due_hourly :: "nat \<Rightarrow> store \<Rightarrow> int list" where
  "due_hourly now_utc s = (if minute_of now_utc = 0 then distinct_chats_hourly s else [])"

definition due_daily :: "nat \<Rightarrow> store \<Rightarrow> int list" where
  "due_daily now_utc s = distinct_chats_daily (strftime_HM now_utc) s"

text \<open>An environment in which everything succeeds, and one in which a chat has blocked the bot.\<close>

definition all_fine :: "'r \<Rightarrow> nat \<Rightarrow> 'r tick_env" where
  "all_fine r d =
     \<lparr>get_rates = Inr r, connect = None, query_hourly = None, query_daily = None,
      send_message = (\<lambda>c. None), elapsed = d\<rparr>"

definition blocked_by :: "int \<Rightarrow> int \<Rightarrow> py_exception option" where
  "blocked_by b c = (if c = b then Some DeliveryError else None)"

definition one_blocked :: "'r \<Rightarrow> int \<Rightarrow> nat \<Rightarrow> 'r tick_env" where
  "one_blocked r b d = (all_fine r d)\<lparr>send_message := blocked_by b\<rparr>"

definition fetch_fails :: "nat \<Rightarrow> 'r tick_env" where
  "fetch_fails d =
     \<lparr>get_rates = Inl FetchError, connect = None, query_hourly = None, query_daily = None,
      send_message = (\<lambda>c. None), elapsed = d\<rparr>"

text \<open>Three users with an hourly subscription each, to three chats.\<close>

definition three_hourly :: store where
  "three_hourly =
     \<lparr>subs =
        [\<lparr>row_id = 1, user_id = 1, chat_id = 100, kind = Hourly, daily_time = None,
          created_at = 0\<rparr>,
         \<lparr>row_id = 2, user_id = 2, chat_id = 200, kind = Hourly, daily_time = None,
          created_at = 0\<rparr>,
         \<lparr>row_id = 3, user_id = 3, chat_id = 300, kind = Hourly, daily_time = None,
          created_at = 0\<rparr>],
      last_id = 3\<rparr>"

text \<open>One user with an hourly and a daily subscription, subscribed in that order.\<close>

definition hourly_then_daily :: store where
  "hourly_then_daily =
     \<lparr>subs =
        [\<lparr>row_id = 1, user_id = 1, chat_id = 100, kind = Hourly, daily_time = None,
          created_at = 0\<rparr>,
         \<lparr>row_id = 2, user_id = 1, chat_id = 100, kind = Daily, daily_time = Some ''09:00'',
          created_at = 5\<rparr>],
      last_id = 2\<rparr>"

text \<open>Two users with a daily subscription at 00:01 to the same chat.\<close>

definition shared_daily :: store where
  "shared_daily =
     \<lparr>subs =
        [\<lparr>row_id = 1, user_id = 1, chat_id = 100, kind = Daily, daily_time = Some ''00:01'',
          created_at = 0\<rparr>,
         \<lparr>row_id = 2, user_id = 2, chat_id = 100, kind = Daily, daily_time = Some ''00:01'',
          created_at = 0\<rparr>],
      last_id = 2\<rparr>"


section \<open>The command \<^verbatim>\<open>/subscribe_daily\<close>\<close>

text \<open>
  The text of a message is a Python \<^verbatim>\<open>str\<close>: a sequence of Unicode code points, here
  natural numbers. \<open>ascii\<close> gives the code points of a text written with ASCII characters.
\<close>

type_synonym ustr = "nat list"

definition ascii :: "string \<Rightarrow> ustr" where
  "ascii s = map of_char s"

definition colon :: nat where
  "colon = 58"

text \<open>
  What \<^verbatim>\<open>str.isdigit\<close>, \<^verbatim>\<open>int\<close> and \<^verbatim>\<open>str.split()\<close> do with a character is read from the
  Unicode character database of the interpreter, which is not part of this program and is
  taken as a parameter, over all code points:
  \<^item> \<open>decimal c\<close> is the value of a character of numeric type Decimal (the decimal
    digits of every script, category Nd), and \<open>None\<close> for every other character;
  \<^item> \<open>digit_only c\<close> holds for the characters of numeric type Digit (superscript
    digits and the like);
  \<^item> \<open>space c\<close> holds for the characters at which \<^verbatim>\<open>str.split()\<close> separates.
\<close>

record ucd =
  decimal :: "nat \<Rightarrow> nat option"
  digit_only :: "nat \<Rightarrow> bool"
  space :: "nat \<Rightarrow> bool"

text \<open>
  \<^verbatim>\<open>str.isdigit\<close>: the string is not empty and every character has numeric type Digit or
  Decimal.
\<close>

definition isdigit_char :: "ucd \<Rightarrow> nat \<Rightarrow> bool" where
  "isdigit_char u c = (decimal u c \<noteq> None \<or> digit_only u c)"

definition isdigit :: "ucd \<Rightarrow> ustr \<Rightarrow> bool" where
  "isdigit u s = (s \<noteq> [] \<and> list_all (isdigit_char u) s)"

definition decimal_char :: "ucd \<Rightarrow> nat \<Rightarrow> bool" where
  "decimal_char u c = (decimal u c \<noteq> None)"

definition digit_value :: "ucd \<Rightarrow> nat \<Rightarrow> nat" where
  "digit_value u c = (case decimal u c of None \<Rightarrow> 0 | Some v \<Rightarrow> v)"

definition dec_value :: "ucd \<Rightarrow> ustr \<Rightarrow> nat" where
  "dec_value u s = foldl (\<lambda>a c. 10 * a + digit_value u c) 0 s"

text \<open>
  \<^verbatim>\<open>int\<close> on a string that passed \<^verbatim>\<open>isdigit\<close>: the number written by decimal digits of any
  script, and \<^verbatim>\<open>ValueError\<close> when a character is a digit without being a decimal digit.
  (The interpreter's limit on the number of digits is beyond the length of a message.)
\<close>

definition py_int :: "ucd \<Rightarrow> ustr \<Rightarrow> py_exception + nat" where
  "py_int u s =
     (if s \<noteq> [] \<and> list_all (decimal_char u) s then Inr (dec_value u s) else Inl ValueError)"

text \<open>\<^verbatim>\<open>str.split()\<close>: the maximal runs of characters that are not whitespace.\<close>

fun split_ws :: "ucd \<Rightarrow> ustr \<Rightarrow> ustr \<Rightarrow> ustr list" where
  "split_ws u cur [] = (if cur = [] then [] else [cur])"
| "split_ws u cur (c # cs) =
     (if space u c
      then (if cur = [] then split_ws u [] cs else cur # split_ws u [] cs)
      else split_ws u (cur @ [c]) cs)"

definition py_split :: "ucd \<Rightarrow> ustr \<Rightarrow> ustr list" where
  "py_split u s = split_ws u [] s"

text \<open>\<^verbatim>\<open>str.split(sep)\<close> for a separator of one character.\<close>

fun split_sep :: "nat \<Rightarrow> ustr \<Rightarrow> ustr \<Rightarrow> ustr list" where
  "split_sep sep cur [] = [cur]"
| "split_sep sep cur (c # cs) =
     (if c = sep then cur # split_sep sep [] cs else split_sep sep (cur @ [c]) cs)"

text \<open>The answers of the handler; \<open>Confirmed\<close> carries the time it announces.\<close>

datatype reply = AskTime | AskFormat | AskNumbers | AskRange | Confirmed string

text \<open>
  \<^verbatim>\<open>cmd_subscribe_daily\<close>, from the text of the message (\<^verbatim>\<open>None\<close> for a message without
  text), the sender, the chat, the clock and the database. Unpacking the result of the
  split into two names raises \<^verbatim>\<open>ValueError\<close> unless it has two parts. The time that is
  stored is the output of the two \<^verbatim>\<open>:02d\<close> formats, which is ASCII whatever the script of
  the input.
\<close>

definition cmd_subscribe_daily ::
  "ucd \<Rightarrow> ustr option \<Rightarrow> int \<Rightarrow> int \<Rightarrow> nat \<Rightarrow> store \<Rightarrow> py_exception + reply \<times> store" where
  "cmd_subscribe_daily u text uid cid now s =
     (let parts = py_split u (case text of None \<Rightarrow> [] | Some t \<Rightarrow> t) in
      if length parts < 2 then Inr (AskTime, s)
      else
        let time_str = parts ! 1 in
        if count_list time_str colon \<noteq> 1 then Inr (AskFormat, s)
        else
          (case split_sep colon [] time_str of
             [hh_str, mm_str] \<Rightarrow>
               if \<not> (isdigit u hh_str \<and> isdigit u mm_str) then Inr (AskNumbers, s)
               else
                 (case py_int u hh_str of
                    Inl e \<Rightarrow> Inl e
                  | Inr hh \<Rightarrow>
                      (case py_int u mm_str of
                         Inl e \<Rightarrow> Inl e
                       | Inr mm \<Rightarrow>
                           if \<not> (hh \<le> 23 \<and> mm \<le> 59) then Inr (AskRange, s)
                           else
                             (case add_sub uid cid ''daily''
                                     (Some (fmt_02d hh @ '':'' @ fmt_02d mm)) now s of
                                Inl e \<Rightarrow> Inl e
                              | Inr s' \<Rightarrow>
                                  Inr (Confirmed (fmt_02d hh @ '':'' @ fmt_02d mm), s'))))
           | _ \<Rightarrow> Inl ValueError))"

text \<open>
  The condition of the specification on the argument of the command: exactly one colon,
  both sides of it made of decimal digits, the hour at most 23 and the minute at most 59.
\<close>

definition accepts_HH_MM :: "ucd \<Rightarrow> ustr \<Rightarrow> bool" where
  "accepts_HH_MM u a =
     (count_list a colon = 1
      \<and> (let hh = takeWhile (\<lambda>c. c \<noteq> colon) a;
              mm = tl (dropWhile (\<lambda>c. c \<noteq> colon) a)
         in hh \<noteq> [] \<and> mm \<noteq> [] \<and> list_all (decimal_char u) hh \<and> list_all (decimal_char u) mm
            \<and> dec_value u hh \<le> 23 \<and> dec_value u mm \<le> 59))"

definition hour_part :: "ucd \<Rightarrow> ustr \<Rightarrow> nat" where
  "hour_part u a = dec_value u (takeWhile (\<lambda>c. c \<noteq> colon) a)"

definition minute_part :: "ucd \<Rightarrow> ustr \<Rightarrow> nat" where
  "minute_part u a = dec_value u (tl (dropWhile (\<lambda>c. c \<noteq> colon) a))"

text \<open>
  A part of the database, for the examples: the ASCII digits and the Arabic-Indic digits
  (U+0660 to U+0669) as decimal digits, the superscripts two, three and one as digits that
  are not decimal, and the whitespace below U+0100.
\<close>

definition ucd_part :: ucd where
  "ucd_part =
     \<lparr>decimal =
        (\<lambda>c. if 48 \<le> c \<and> c \<le> 57 then Some (c - 48)
             else if 1632 \<le> c \<and> c \<le> 1641 then Some (c - 1632)
             else None),
      digit_only = (\<lambda>c. c \<in> set [178, 179, 185]),
      space = (\<lambda>c. c \<in> set [9, 10, 11, 12, 13, 28, 29, 30, 31, 32, 133, 160])\<rparr>"


section \<open>Removing all subscriptions of a user\<close>

lemma length_filter_kind_split:
  "length (filter (\<lambda>r. user_id r = uid) rs) =
     length (filter (\<lambda>r. user_id r = uid \<and> kind r = Hourly) rs) +
     length (filter (\<lambda>r. user_id r = uid \<and> kind r = Daily) rs)"
proof (induction rs)
  case Nil
  show ?case by simp
next
  case (Cons r rs)
  show ?case
  proof (cases "kind r")
    case Hourly
    with Cons show ?thesis by simp
  next
    case Daily
    with Cons show ?thesis by simp
  qed
qed

lemma rows_of_split: "length (rows_of s uid) = count_kind s uid Hourly + count_kind s uid Daily"
  unfolding rows_of_def count_kind_def by (rule length_filter_kind_split)

text \<open>
  C9. \<open>remove_all_subs\<close> returns the number of rows the user owned and leaves none of them,
  keeping every other user's rows as they were; a user without rows gets 0 and an
  unchanged table; a user holding one hourly and one daily subscription gets 2.
\<close>

theorem remove_all_subs_count:
  "snd (remove_all_subs uid s) = length (rows_of s uid)
   \<and> rows_of (fst (remove_all_subs uid s)) uid = []
   \<and> (\<forall>v. v \<noteq> uid \<longrightarrow> rows_of (fst (remove_all_subs uid s)) v = rows_of s v)
   \<and> (rows_of s uid = [] \<longrightarrow> remove_all_subs uid s = (s, 0))
   \<and> (count_kind s uid Hourly = 1 \<and> count_kind s uid Daily = 1 \<longrightarrow>
        snd (remove_all_subs uid s) = 2
        \<and> count_kind (fst (remove_all_subs uid s)) uid Hourly = 0
        \<and> count_kind (fst (remove_all_subs uid s)) uid Daily = 0)"
proof (intro conjI allI impI)
  show "snd (remove_all_subs uid s) = length (rows_of s uid)"
    by (simp add: remove_all_subs_def rows_of_def)
  show gone: "rows_of (fst (remove_all_subs uid s)) uid = []"
    by (simp add: remove_all_subs_def rows_of_def)
  show "rows_of (fst (remove_all_subs uid s)) v = rows_of s v" if "v \<noteq> uid" for v
  proof -
    have "filter (\<lambda>r. user_id r \<noteq> uid \<and> user_id r = v) (subs s) =
          filter (\<lambda>r. user_id r = v) (subs s)"
      using that by (intro filter_cong) auto
    then show ?thesis
      by (simp add: remove_all_subs_def rows_of_def)
  qed
  show "remove_all_subs uid s = (s, 0)" if "rows_of s uid = []"
  proof -
    from that have none: "\<forall>r \<in> set (subs s). user_id r \<noteq> uid"
      by (simp add: rows_of_def filter_empty_conv)
    then have "filter (\<lambda>r. user_id r \<noteq> uid) (subs s) = subs s"
      by (simp add: filter_id_conv)
    moreover from none have "filter (\<lambda>r. user_id r = uid) (subs s) = []"
      by (simp add: filter_empty_conv)
    ultimately show ?thesis
      by (simp add: remove_all_subs_def)
  qed
  assume both: "count_kind s uid Hourly = 1 \<and> count_kind s uid Daily = 1"
  then show "snd (remove_all_subs uid s) = 2"
    using rows_of_split [of s uid] by (simp add: remove_all_subs_def rows_of_def)
  have "length (rows_of (fst (remove_all_subs uid s)) uid) = 0"
    using gone by simp
  then have "count_kind (fst (remove_all_subs uid s)) uid Hourly +
             count_kind (fst (remove_all_subs uid s)) uid Daily = 0"
    by (simp only: rows_of_split)
  then show "count_kind (fst (remove_all_subs uid s)) uid Hourly = 0"
    and "count_kind (fst (remove_all_subs uid s)) uid Daily = 0"
    by simp_all
qed

theorem remove_all_subs_count_witness:
  "count_kind hourly_then_daily 1 Hourly = 1 \<and> count_kind hourly_then_daily 1 Daily = 1
   \<and> snd (remove_all_subs 1 hourly_then_daily) = 2
   \<and> rows_of three_hourly 7 = [] \<and> remove_all_subs 7 three_hourly = (three_hourly, 0)"
proof -
  have both: "count_kind hourly_then_daily 1 Hourly = 1 \<and> count_kind hourly_then_daily 1 Daily = 1"
    by (simp add: count_kind_def hourly_then_daily_def)
  have none: "rows_of three_hourly 7 = []"
    by (simp add: rows_of_def three_hourly_def)
  show ?thesis
    using both none remove_all_subs_count [of 1 hourly_then_daily]
      remove_all_subs_count [of 7 three_hourly]
    by simp
qed


section \<open>Inserting a subscription\<close>

lemma add_sub_hourly:
  "add_sub uid cid ''hourly'' dt now s =
     Inr \<lparr>subs = filter (\<lambda>r. \<not> (user_id r = uid \<and> kind r = Hourly)) (subs s) @
                 [\<lparr>row_id = last_id s + 1, user_id = uid, chat_id = cid, kind = Hourly,
                   daily_time = dt, created_at = now\<rparr>],
          last_id = last_id s + 1\<rparr>"
  by (simp add: add_sub_def kind_of_text_def)

lemma add_sub_daily:
  "truthy dt \<Longrightarrow>
   add_sub uid cid ''daily'' dt now s =
     Inr \<lparr>subs = filter (\<lambda>r. \<not> (user_id r = uid \<and> kind r = Daily)) (subs s) @
                 [\<lparr>row_id = last_id s + 1, user_id = uid, chat_id = cid, kind = Daily,
                   daily_time = dt, created_at = now\<rparr>],
          last_id = last_id s + 1\<rparr>"
  by (simp add: add_sub_def kind_of_text_def)

lemma add_sub_Inr_cases:
  assumes "add_sub uid cid k dt now s = Inr s'"
  obtains kd where "kind_of_text k = Some kd"
    and "subs s' = filter (\<lambda>r. \<not> (user_id r = uid \<and> kind r = kd)) (subs s) @
                 [\<lparr>row_id = last_id s + 1, user_id = uid, chat_id = cid, kind = kd,
                   daily_time = dt, created_at = now\<rparr>]"
proof -
  from assms obtain kd where kd: "kind_of_text k = Some kd"
    by (auto simp: add_sub_def Let_def split: if_splits option.splits)
  have "subs s' = filter (\<lambda>r. \<not> (user_id r = uid \<and> kind r = kd)) (subs s) @
                 [\<lparr>row_id = last_id s + 1, user_id = uid, chat_id = cid, kind = kd,
                   daily_time = dt, created_at = now\<rparr>]"
    using assms kd
    by (auto simp: add_sub_def Let_def kind_of_text_def split: if_splits)
  with kd show thesis by (rule that)
qed

lemma filter_filter_none:
  "(\<And>x. P x \<Longrightarrow> \<not> Q x) \<Longrightarrow> filter P (filter Q xs) = []"
  by (induction xs) auto

lemma filter_filter_same:
  "(\<And>x. P x \<Longrightarrow> Q x) \<Longrightarrow> filter P (filter Q xs) = filter P xs"
  by (induction xs) auto

lemma count_kind_add_sub:
  assumes "add_sub uid cid k dt now s = Inr s'"
  shows "count_kind s' v kd =
           (if v = uid \<and> kind_of_text k = Some kd then 1 else count_kind s v kd)"
proof -
  from assms obtain k' where k': "kind_of_text k = Some k'"
    and rows: "subs s' = filter (\<lambda>r. \<not> (user_id r = uid \<and> kind r = k')) (subs s) @
                 [\<lparr>row_id = last_id s + 1, user_id = uid, chat_id = cid, kind = k',
                   daily_time = dt, created_at = now\<rparr>]"
    by (rule add_sub_Inr_cases)
  let ?P = "\<lambda>r::sub_row. user_id r = v \<and> kind r = kd"
  let ?Q = "\<lambda>r::sub_row. \<not> (user_id r = uid \<and> kind r = k')"
  let ?new = "\<lparr>row_id = last_id s + 1, user_id = uid, chat_id = cid, kind = k',
               daily_time = dt, created_at = now\<rparr>"
  have split: "count_kind s' v kd = length (filter ?P (filter ?Q (subs s))) + length (filter ?P [?new])"
    unfolding count_kind_def rows by (simp only: filter_append length_append)
  show ?thesis
  proof (cases "v = uid \<and> k' = kd")
    case True
    then have "filter ?P (filter ?Q (subs s)) = []"
      by (intro filter_filter_none) auto
    moreover from True have "length (filter ?P [?new]) = 1"
      by simp
    ultimately show ?thesis
      using split True k' by simp
  next
    case False
    then have "filter ?P (filter ?Q (subs s)) = filter ?P (subs s)"
      by (intro filter_filter_same) auto
    moreover from False have "length (filter ?P [?new]) = 0"
      by auto
    ultimately have "count_kind s' v kd = count_kind s v kd"
      using split by (simp only: count_kind_def add_0_right)
    with False k' show ?thesis by auto
  qed
qed

lemma count_kind_remove_all:
  "count_kind (fst (remove_all_subs uid s)) v kd = (if v = uid then 0 else count_kind s v kd)"
proof -
  let ?P = "\<lambda>r::sub_row. user_id r = v \<and> kind r = kd"
  let ?Q = "\<lambda>r::sub_row. user_id r \<noteq> uid"
  have eq: "count_kind (fst (remove_all_subs uid s)) v kd = length (filter ?P (filter ?Q (subs s)))"
    unfolding count_kind_def remove_all_subs_def by (simp del: filter_filter)
  show ?thesis
  proof (cases "v = uid")
    case True
    then have "filter ?P (filter ?Q (subs s)) = []"
      by (intro filter_filter_none) auto
    with eq True show ?thesis by simp
  next
    case False
    then have "filter ?P (filter ?Q (subs s)) = filter ?P (subs s)"
      by (intro filter_filter_same) auto
    with eq False show ?thesis by (simp add: count_kind_def)
  qed
qed

lemma apply_store_op_invariant:
  assumes "\<forall>v kd. count_kind s v kd \<le> 1"
  shows "count_kind (apply_store_op op s) v kd \<le> 1"
proof (cases op)
  case (Upsert uid cid k dt now)
  show ?thesis
  proof (cases "add_sub uid cid k dt now s")
    case (Inl e)
    with Upsert assms show ?thesis by simp
  next
    case (Inr s')
    have "count_kind s' v kd \<le> 1"
      using assms by (simp add: count_kind_add_sub [OF Inr])
    with Upsert Inr show ?thesis by simp
  qed
next
  case (RemoveAll uid)
  have "count_kind (fst (remove_all_subs uid s)) v kd \<le> 1"
    using assms by (simp add: count_kind_remove_all)
  with RemoveAll show ?thesis by simp
qed

lemma fold_store_ops_invariant:
  "\<forall>v kd. count_kind s v kd \<le> 1 \<Longrightarrow> count_kind (fold apply_store_op ops s) v kd \<le> 1"
proof (induction ops arbitrary: s)
  case Nil
  then show ?case by simp
next
  case (Cons op ops)
  have "\<forall>v kd. count_kind (apply_store_op op s) v kd \<le> 1"
    using apply_store_op_invariant [OF Cons.prems] by blast
  then show ?case
    using Cons.IH by simp
qed

lemma count_kind_init_db: "count_kind init_db v kd = 0"
  by (simp add: count_kind_def init_db_def)

text \<open>
  C8. After any sequence of store operations on the empty table a user holds at most one
  hourly and at most one daily subscription; and the two can be held together: after an
  hourly and a daily subscription of the same user, exactly one of each.
\<close>

theorem one_subscription_per_kind:
  "count_kind (fold apply_store_op ops init_db) uid Hourly \<le> 1
   \<and> count_kind (fold apply_store_op ops init_db) uid Daily \<le> 1
   \<and> (truthy dt \<longrightarrow>
        count_kind
          (fold apply_store_op
             (ops @ [Upsert uid cid ''hourly'' None now, Upsert uid cid' ''daily'' dt now'])
             init_db) uid Hourly = 1
        \<and> count_kind
          (fold apply_store_op
             (ops @ [Upsert uid cid ''hourly'' None now, Upsert uid cid' ''daily'' dt now'])
             init_db) uid Daily = 1)"
proof (intro conjI impI)
  have start: "\<forall>v kd. count_kind init_db v kd \<le> 1"
    by (simp add: count_kind_init_db)
  show "count_kind (fold apply_store_op ops init_db) uid Hourly \<le> 1"
    using start by (rule fold_store_ops_invariant)
  show "count_kind (fold apply_store_op ops init_db) uid Daily \<le> 1"
    using start by (rule fold_store_ops_invariant)
  assume dt: "truthy dt"
  define s where "s = fold apply_store_op ops init_db"
  define s1 where "s1 = apply_store_op (Upsert uid cid ''hourly'' None now) s"
  define s2 where "s2 = apply_store_op (Upsert uid cid' ''daily'' dt now') s1"
  have run: "fold apply_store_op
               (ops @ [Upsert uid cid ''hourly'' None now, Upsert uid cid' ''daily'' dt now'])
               init_db = s2"
    by (simp add: s_def s1_def s2_def)
  obtain t1 where a1: "add_sub uid cid ''hourly'' None now s = Inr t1"
    by (simp add: add_sub_hourly)
  then have s1: "s1 = t1" by (simp add: s1_def)
  obtain t2 where a2: "add_sub uid cid' ''daily'' dt now' s1 = Inr t2"
    using dt by (simp add: add_sub_daily)
  then have s2: "s2 = t2" by (simp add: s2_def)
  have h1: "count_kind s1 uid Hourly = 1"
    using count_kind_add_sub [OF a1, of uid Hourly] s1 by (simp add: kind_of_text_def)
  have "count_kind s2 uid Hourly = count_kind s1 uid Hourly"
    using count_kind_add_sub [OF a2, of uid Hourly] s2 by (simp add: kind_of_text_def)
  with h1 run show "count_kind
          (fold apply_store_op
             (ops @ [Upsert uid cid ''hourly'' None now, Upsert uid cid' ''daily'' dt now'])
             init_db) uid Hourly = 1"
    by simp
  have "count_kind s2 uid Daily = 1"
    using count_kind_add_sub [OF a2, of uid Daily] s2 by (simp add: kind_of_text_def)
  with run show "count_kind
          (fold apply_store_op
             (ops @ [Upsert uid cid ''hourly'' None now, Upsert uid cid' ''daily'' dt now'])
             init_db) uid Daily = 1"
    by simp
qed

theorem one_subscription_per_kind_witness:
  "truthy (Some ''09:00'')
   \<and> count_kind
       (fold apply_store_op
          [Upsert 1 100 ''hourly'' None 0, Upsert 1 200 ''hourly'' None 1,
           Upsert 1 100 ''daily'' (Some ''08:00'') 2,
           Upsert 1 100 ''hourly'' None 3, Upsert 1 300 ''daily'' (Some ''09:00'') 4]
          init_db) 1 Hourly = 1
   \<and> count_kind
       (fold apply_store_op
          [Upsert 1 100 ''hourly'' None 0, Upsert 1 200 ''hourly'' None 1,
           Upsert 1 100 ''daily'' (Some ''08:00'') 2,
           Upsert 1 100 ''hourly'' None 3, Upsert 1 300 ''daily'' (Some ''09:00'') 4]
          init_db) 1 Daily = 1"
proof -
  have t: "truthy (Some ''09:00'')" by simp
  show ?thesis
    using t one_subscription_per_kind
      [of "[Upsert 1 100 ''hourly'' None 0, Upsert 1 200 ''hourly'' None 1,
            Upsert 1 100 ''daily'' (Some ''08:00'') 2]" 1 "Some ''09:00''" 100 3 300 4]
    by simp
qed


section \<open>Listing the subscriptions of a user\<close>

lemma kind_text_daily_least: "''daily'' \<le> kind_text k"
  by (cases k) simp_all

lemma insort_daily:
  fixes x :: sub_row
  assumes "kind x = Daily"
  shows "insort_key (\<lambda>r. kind_text (kind r)) x ys = x # ys"
  using assms by (cases ys) (simp_all add: kind_text_daily_least)

lemma insort_hourly:
  fixes x :: sub_row
  assumes "kind x = Hourly"
    and "\<forall>y \<in> set ds. kind y = Daily"
    and "\<forall>y \<in> set hs. kind y = Hourly"
  shows "insort_key (\<lambda>r. kind_text (kind r)) x (ds @ hs) = ds @ x # hs"
  using assms(2)
proof (induction ds)
  case Nil
  show ?case
    using assms(1,3) by (cases hs) simp_all
next
  case (Cons d ds)
  then have "kind d = Daily" by simp
  with Cons assms(1) show ?case by simp
qed

lemma sort_by_kind:
  fixes rs :: "sub_row list"
  shows "sort_key (\<lambda>r. kind_text (kind r)) rs =
           filter (\<lambda>r. kind r = Daily) rs @ filter (\<lambda>r. kind r = Hourly) rs"
proof (induction rs)
  case Nil
  show ?case by simp
next
  case (Cons r rs)
  show ?case
  proof (cases "kind r")
    case Daily
    with Cons show ?thesis by (simp add: insort_daily)
  next
    case Hourly
    have "insort_key (\<lambda>r. kind_text (kind r)) r
            (filter (\<lambda>r. kind r = Daily) rs @ filter (\<lambda>r. kind r = Hourly) rs) =
          filter (\<lambda>r. kind r = Daily) rs @ r # filter (\<lambda>r. kind r = Hourly) rs"
      using Hourly by (intro insort_hourly) simp_all
    with Cons Hourly show ?thesis by simp
  qed
qed

lemma filter_user_kind:
  fixes rs :: "sub_row list"
  shows "filter (\<lambda>r. kind r = k) (filter (\<lambda>r. user_id r = uid) rs) =
           filter (\<lambda>r. user_id r = uid \<and> kind r = k) rs"
  by (induction rs) auto

lemma list_subs_split:
  "list_subs uid s =
     map (\<lambda>r. (''daily'', daily_time r))
       (filter (\<lambda>r. user_id r = uid \<and> kind r = Daily) (subs s)) @
     map (\<lambda>r. (''hourly'', daily_time r))
       (filter (\<lambda>r. user_id r = uid \<and> kind r = Hourly) (subs s))"
proof -
  have d: "map (\<lambda>r. (kind_text (kind r), daily_time r)) (filter (\<lambda>r. user_id r = uid \<and> kind r = Daily) (subs s))
         = map (\<lambda>r. (''daily'', daily_time r)) (filter (\<lambda>r. user_id r = uid \<and> kind r = Daily) (subs s))"
    by (rule map_cong) auto
  have h: "map (\<lambda>r. (kind_text (kind r), daily_time r)) (filter (\<lambda>r. user_id r = uid \<and> kind r = Hourly) (subs s))
         = map (\<lambda>r. (''hourly'', daily_time r)) (filter (\<lambda>r. user_id r = uid \<and> kind r = Hourly) (subs s))"
    by (rule map_cong) auto
  show ?thesis
    unfolding list_subs_def sort_by_kind filter_user_kind map_append d h ..
qed

text \<open>
  C2, as the code has it. \<open>list_subs\<close> returns the kind and time of every subscription of
  the user, the daily ones before the hourly ones (the order of the texts \<^verbatim>\<open>'daily'\<close> and
  \<^verbatim>\<open>'hourly'\<close>), and the answer depends on the table only.
\<close>

theorem list_subs_daily_before_hourly:
  "list_subs uid s =
     map (\<lambda>r. (''daily'', daily_time r))
       (filter (\<lambda>r. user_id r = uid \<and> kind r = Daily) (subs s)) @
     map (\<lambda>r. (''hourly'', daily_time r))
       (filter (\<lambda>r. user_id r = uid \<and> kind r = Hourly) (subs s))
   \<and> length (list_subs uid s) = length (rows_of s uid)
   \<and> sorted (map fst (list_subs uid s))"
proof (intro conjI)
  show "list_subs uid s =
     map (\<lambda>r. (''daily'', daily_time r))
       (filter (\<lambda>r. user_id r = uid \<and> kind r = Daily) (subs s)) @
     map (\<lambda>r. (''hourly'', daily_time r))
       (filter (\<lambda>r. user_id r = uid \<and> kind r = Hourly) (subs s))"
    by (rule list_subs_split)
  show "length (list_subs uid s) = length (rows_of s uid)"
    by (simp add: list_subs_def rows_of_def)
  have "map fst (list_subs uid s) =
          map (\<lambda>r. kind_text (kind r))
            (sort_key (\<lambda>r. kind_text (kind r)) (filter (\<lambda>r. user_id r = uid) (subs s)))"
    by (simp add: list_subs_def comp_def)
  then show "sorted (map fst (list_subs uid s))"
    by (simp only: sorted_sort_key)
qed

theorem list_subs_daily_before_hourly_witness:
  "list_subs 1 hourly_then_daily =
     map (\<lambda>r. (''daily'', daily_time r))
       (filter (\<lambda>r. user_id r = 1 \<and> kind r = Daily) (subs hourly_then_daily)) @
     map (\<lambda>r. (''hourly'', daily_time r))
       (filter (\<lambda>r. user_id r = 1 \<and> kind r = Hourly) (subs hourly_then_daily))
   \<and> length (list_subs 1 hourly_then_daily) = 2"
  using list_subs_daily_before_hourly [of 1 hourly_then_daily]
  by (simp add: rows_of_def hourly_then_daily_def)

text \<open>
  C2 as stated fails: a user who subscribed hourly and then daily is listed with the daily
  subscription first.
\<close>

theorem list_subs_hourly_first_counterexample:
  "fold apply_store_op
     [Upsert 1 100 ''hourly'' None 0, Upsert 1 100 ''daily'' (Some ''09:00'') 5] init_db
     = hourly_then_daily
   \<and> list_subs 1 hourly_then_daily = [(''daily'', Some ''09:00''), (''hourly'', None)]"
  by (simp add: hourly_then_daily_def init_db_def add_sub_def kind_of_text_def list_subs_def)


section \<open>Subscribing twice\<close>

text \<open>
  C4. After two hourly subscriptions of one user, the second to chat \<open>cid2\<close>, the user has
  exactly one hourly row, it is bound to \<open>cid2\<close>, and \<open>list_subs\<close> shows exactly one hourly
  entry.
\<close>

theorem add_sub_hourly_twice:
  "\<exists>s1 s2. add_sub uid cid ''hourly'' dt now s = Inr s1
     \<and> add_sub uid cid2 ''hourly'' dt2 now2 s1 = Inr s2
     \<and> map chat_id (filter (\<lambda>r. user_id r = uid \<and> kind r = Hourly) (subs s2)) = [cid2]
     \<and> count_kind s2 uid Hourly = 1
     \<and> filter (\<lambda>e. fst e = ''hourly'') (list_subs uid s2) = [(''hourly'', dt2)]"
proof -
  obtain s1 where a1: "add_sub uid cid ''hourly'' dt now s = Inr s1"
    by (simp add: add_sub_hourly)
  let ?Q = "\<lambda>r::sub_row. \<not> (user_id r = uid \<and> kind r = Hourly)"
  let ?P = "\<lambda>r::sub_row. user_id r = uid \<and> kind r = Hourly"
  let ?new = "\<lparr>row_id = last_id s1 + 1, user_id = uid, chat_id = cid2, kind = Hourly,
               daily_time = dt2, created_at = now2\<rparr>"
  define s2 where "s2 = \<lparr>subs = filter ?Q (subs s1) @ [?new], last_id = last_id s1 + 1\<rparr>"
  have a2: "add_sub uid cid2 ''hourly'' dt2 now2 s1 = Inr s2"
    unfolding s2_def by (rule add_sub_hourly)
  have "filter ?P (filter ?Q (subs s1)) = []"
    by (intro filter_filter_none) auto
  then have own: "filter ?P (subs s2) = [?new]"
    unfolding s2_def by (simp del: filter_filter)
  then have chat: "map chat_id (filter ?P (subs s2)) = [cid2]"
    by simp
  have cnt: "count_kind s2 uid Hourly = 1"
    unfolding count_kind_def own by simp
  have "list_subs uid s2 =
     map (\<lambda>r. (''daily'', daily_time r))
       (filter (\<lambda>r. user_id r = uid \<and> kind r = Daily) (subs s2)) @ [(''hourly'', dt2)]"
    unfolding list_subs_split own by simp
  then have shown: "filter (\<lambda>e. fst e = ''hourly'') (list_subs uid s2) = [(''hourly'', dt2)]"
    by (simp add: filter_empty_conv)
  show ?thesis
    by (intro exI [of _ s1] exI [of _ s2] conjI) (fact a1 a2 chat cnt shown)+
qed

theorem add_sub_hourly_twice_witness:
  "add_sub 1 200 ''hourly'' None 9 hourly_then_daily =
     Inr \<lparr>subs =
            [\<lparr>row_id = 2, user_id = 1, chat_id = 100, kind = Daily,
              daily_time = Some ''09:00'', created_at = 5\<rparr>,
             \<lparr>row_id = 3, user_id = 1, chat_id = 200, kind = Hourly, daily_time = None,
              created_at = 9\<rparr>],
          last_id = 3\<rparr>
   \<and> (\<exists>s1 s2. add_sub 1 100 ''hourly'' None 0 init_db = Inr s1
         \<and> add_sub 1 200 ''hourly'' None 1 s1 = Inr s2
         \<and> map chat_id (filter (\<lambda>r. user_id r = 1 \<and> kind r = Hourly) (subs s2)) = [200]
         \<and> count_kind s2 1 Hourly = 1
         \<and> filter (\<lambda>e. fst e = ''hourly'') (list_subs 1 s2) = [(''hourly'', None)])"
  using add_sub_hourly_twice [of 1 100 None 0 init_db 200 None 1]
  by (simp add: add_sub_def kind_of_text_def hourly_then_daily_def)


section \<open>The queries of a tick\<close>

lemma set_sql_distinct: "set (sql_distinct xs) = set xs"
  by (simp add: sql_distinct_def)

lemma distinct_sql_distinct: "distinct (sql_distinct xs)"
  by (simp add: sql_distinct_def)

lemma set_due_hourly:
  "set (due_hourly now s) =
     (if minute_of now = 0 then chat_id ` {r \<in> set (subs s). kind r = Hourly} else {})"
  by (auto simp: due_hourly_def distinct_chats_hourly_def set_sql_distinct)

lemma set_due_daily:
  "set (due_daily now s) =
     chat_id ` {r \<in> set (subs s). kind r = Daily \<and> daily_time r = Some (strftime_HM now)}"
  by (auto simp: due_daily_def distinct_chats_daily_def set_sql_distinct)

lemma distinct_due: "distinct (due_hourly now s)" "distinct (due_daily now s)"
  by (simp_all add: due_hourly_def due_daily_def distinct_chats_hourly_def
      distinct_chats_daily_def distinct_sql_distinct)


section \<open>Sending to a list of chats\<close>

lemma send_each_all_ok:
  "\<forall>c \<in> set cs. sm c = None \<Longrightarrow> send_each sm r cs = (None, map (\<lambda>c. (c, r, None)) cs)"
  by (induction cs) simp_all

lemma send_each_failure:
  "\<forall>b \<in> set before. sm b = None \<Longrightarrow> sm c = Some e \<Longrightarrow>
   send_each sm r (before @ c # after) =
     (Some e, map (\<lambda>b. (b, r, None)) before @ [(c, r, Some e)])"
  by (induction before) simp_all

lemma send_each_append:
  "send_each sm r (xs @ ys) =
     (case send_each sm r xs of
        (Some e, tr) \<Rightarrow> (Some e, tr)
      | (None, tr) \<Rightarrow> (case send_each sm r ys of (res, tr') \<Rightarrow> (res, tr @ tr')))"
  by (induction xs) (auto split: option.splits prod.splits)

lemma send_each_prefix: "prefix (map fst (snd (send_each sm r cs))) cs"
  by (induction cs) (auto split: option.splits prod.splits)

lemma send_each_ok_whole:
  "send_each sm r cs = (None, tr) \<Longrightarrow> map fst tr = cs"
  by (induction cs arbitrary: tr) (auto split: option.splits prod.splits)

text \<open>With the snapshot fetched and the database readable, a tick sends to the due chats in turn.\<close>

lemma tick_body_sends:
  assumes "get_rates env = Inr rates" and "connect env = None"
    and "query_hourly env = None" and "query_daily env = None"
  shows "tick_body env now s =
           send_each (send_message env) rates (due_hourly now s @ due_daily now s)"
proof (cases "minute_of now = 0")
  case True
  with assms show ?thesis
    by (simp add: tick_body_def due_hourly_def due_daily_def send_each_append
        split: prod.splits option.splits)
next
  case False
  with assms show ?thesis
    by (simp add: tick_body_def due_hourly_def due_daily_def split: prod.splits)
qed

lemma tick_body_fetch_failed: "get_rates env = Inl e \<Longrightarrow> tick_body env now s = (Some e, [])"
  by (simp add: tick_body_def)

lemma tick_body_prefix:
  "prefix (map fst (snd (tick_body env now s))) (due_hourly now s @ due_daily now s)"
proof (cases "get_rates env")
  case (Inl e)
  then show ?thesis by (simp add: tick_body_fetch_failed)
next
  case (Inr rates)
  show ?thesis
  proof (cases "connect env")
    case (Some e)
    with Inr show ?thesis by (simp add: tick_body_def)
  next
    case None
    note conn = this
    show ?thesis
    proof (cases "minute_of now = 0")
      case False
      then have "due_hourly now s = []" by (simp add: due_hourly_def)
      with Inr conn False show ?thesis
        using send_each_prefix [of "send_message env" rates "due_daily now s"]
        by (auto simp: tick_body_def due_daily_def split: option.splits prod.splits)
    next
      case True
      then have dh: "due_hourly now s = distinct_chats_hourly s" by (simp add: due_hourly_def)
      show ?thesis
      proof (cases "query_hourly env")
        case (Some e)
        with Inr conn True show ?thesis by (simp add: tick_body_def)
      next
        case None
        note qh = this
        obtain res tr where h: "send_each (send_message env) rates (distinct_chats_hourly s) = (res, tr)"
          by (cases "send_each (send_message env) rates (distinct_chats_hourly s)")
        have ph: "prefix (map fst tr) (distinct_chats_hourly s)"
          using send_each_prefix [of "send_message env" rates "distinct_chats_hourly s"] h by simp
        show ?thesis
        proof (cases res)
          case (Some e)
          with Inr conn True qh h have "tick_body env now s = (Some e, tr)"
            by (simp add: tick_body_def)
          with ph dh show ?thesis by (simp add: prefix_prefix)
        next
          case None
          with h have whole: "map fst tr = distinct_chats_hourly s"
            by (simp add: send_each_ok_whole)
          show ?thesis
          proof (cases "query_daily env")
            case (Some e)
            with Inr conn True qh h None have "tick_body env now s = (Some e, tr)"
              by (simp add: tick_body_def)
            with whole dh show ?thesis by simp
          next
            case qd: None
            obtain res' tr' where d: "send_each (send_message env) rates (due_daily now s) = (res', tr')"
              by (cases "send_each (send_message env) rates (due_daily now s)")
            have pd: "prefix (map fst tr') (due_daily now s)"
              using send_each_prefix [of "send_message env" rates "due_daily now s"] d by simp
            from Inr conn True qh h None qd d have "tick_body env now s = (res', tr @ tr')"
              by (simp add: tick_body_def due_daily_def)
            with whole dh pd show ?thesis by simp
          qed
        qed
      qed
    qed
  qed
qed


section \<open>Which chats a tick serves\<close>

text \<open>
  C5. The hourly chats are due exactly in minute 0, a daily chat exactly when the clock
  renders as its stored time, each due chat once per kind however many subscriptions name
  it; a tick calls \<open>send_message\<close> for an initial part of the hourly chats followed by the
  daily chats, and for all of them when nothing fails.
\<close>

theorem due_chats_once:
  "set (due_hourly now s) =
     (if minute_of now = 0 then chat_id ` {r \<in> set (subs s). kind r = Hourly} else {})
   \<and> set (due_daily now s) =
       chat_id ` {r \<in> set (subs s). kind r = Daily \<and> daily_time r = Some (strftime_HM now)}
   \<and> distinct (due_hourly now s) \<and> distinct (due_daily now s)
   \<and> prefix (map fst (snd (tick_body env now s))) (due_hourly now s @ due_daily now s)
   \<and> (get_rates env = Inr rates \<and> connect env = None \<and> query_hourly env = None
        \<and> query_daily env = None \<and> (\<forall>c. send_message env c = None) \<longrightarrow>
      tick_body env now s =
        (None, map (\<lambda>c. (c, rates, None)) (due_hourly now s @ due_daily now s)))"
proof (intro conjI impI)
  show "set (due_hourly now s) =
     (if minute_of now = 0 then chat_id ` {r \<in> set (subs s). kind r = Hourly} else {})"
    by (rule set_due_hourly)
  show "set (due_daily now s) =
       chat_id ` {r \<in> set (subs s). kind r = Daily \<and> daily_time r = Some (strftime_HM now)}"
    by (rule set_due_daily)
  show "distinct (due_hourly now s)" and "distinct (due_daily now s)"
    by (rule distinct_due)+
  show "prefix (map fst (snd (tick_body env now s))) (due_hourly now s @ due_daily now s)"
    by (rule tick_body_prefix)
  assume ok: "get_rates env = Inr rates \<and> connect env = None \<and> query_hourly env = None
        \<and> query_daily env = None \<and> (\<forall>c. send_message env c = None)"
  then have "tick_body env now s =
           send_each (send_message env) rates (due_hourly now s @ due_daily now s)"
    by (intro tick_body_sends) simp_all
  also have "\<dots> = (None, map (\<lambda>c. (c, rates, None)) (due_hourly now s @ due_daily now s))"
    using ok by (intro send_each_all_ok) simp
  finally show "tick_body env now s =
        (None, map (\<lambda>c. (c, rates, None)) (due_hourly now s @ due_daily now s))" .
qed

lemma strftime_HM_60: "strftime_HM 60 = ''00:01''"
  by (simp add: strftime_HM_def fmt_02d_def dec.simps hour_of_def minute_of_def digit_char_def)

theorem due_chats_once_witness:
  "get_rates (all_fine (7::nat) 1) = Inr 7 \<and> connect (all_fine (7::nat) 1) = None
   \<and> query_hourly (all_fine (7::nat) 1) = None \<and> query_daily (all_fine (7::nat) 1) = None
   \<and> send_message (all_fine (7::nat) 1) 100 = None
   \<and> due_hourly 60 shared_daily = [] \<and> due_daily 60 shared_daily = [100]
   \<and> tick_body (all_fine (7::nat) 1) 60 shared_daily = (None, [(100, 7, None)])"
proof -
  have ok: "get_rates (all_fine (7::nat) 1) = Inr 7 \<and> connect (all_fine (7::nat) 1) = None
   \<and> query_hourly (all_fine (7::nat) 1) = None \<and> query_daily (all_fine (7::nat) 1) = None
   \<and> (\<forall>c. send_message (all_fine (7::nat) 1) c = None)"
    by (simp add: all_fine_def)
  have h: "due_hourly 60 shared_daily = []"
    by (simp add: due_hourly_def minute_of_def)
  have d: "due_daily 60 shared_daily = [100]"
    by (simp add: due_daily_def strftime_HM_60 distinct_chats_daily_def sql_distinct_def
        shared_daily_def)
  show ?thesis
    using ok h d due_chats_once [of 60 shared_daily "all_fine (7::nat) 1" 7]
    by simp
qed


section \<open>A delivery that fails\<close>

text \<open>
  C1, as the code has it. When \<open>send_message\<close> raises for a due chat, the chats before it
  (hourly chats first, then daily ones) have been served, the chats after it are not
  attempted in that tick, the exception is printed and the loop sleeps and goes on.
\<close>

theorem send_failure_ends_tick:
  assumes "get_rates env = Inr rates" and "connect env = None"
    and "query_hourly env = None" and "query_daily env = None"
    and "due_hourly (clock w) (db w) @ due_daily (clock w) (db w) = before @ c # after"
    and "\<forall>b \<in> set before. send_message env b = None"
    and "send_message env c = Some e"
  shows "outbox (tick env w) =
           outbox w @ map (\<lambda>b. (b, rates, None)) before @ [(c, rates, Some e)]
         \<and> printed (tick env w) = printed w @ [e]
         \<and> clock (tick env w) = clock w + elapsed env + 60
         \<and> db (tick env w) = db w
         \<and> notifier_loop (env # envs) w = notifier_loop envs (tick env w)"
proof -
  have "tick_body env (clock w) (db w) =
          send_each (send_message env) rates (before @ c # after)"
    using assms(1-4) by (simp add: tick_body_sends assms(5))
  also have "\<dots> = (Some e, map (\<lambda>b. (b, rates, None)) before @ [(c, rates, Some e)])"
    using assms(6,7) by (rule send_each_failure)
  finally show ?thesis
    by (simp add: tick_def)
qed

theorem send_failure_ends_tick_witness:
  "due_hourly 0 three_hourly @ due_daily 0 three_hourly = [100] @ 200 # [300]
   \<and> outbox (tick (one_blocked (7::nat) 200 1)
               \<lparr>clock = 0, db = three_hourly, outbox = [], printed = []\<rparr>) =
       [(100, 7, None), (200, 7, Some DeliveryError)]
   \<and> printed (tick (one_blocked (7::nat) 200 1)
               \<lparr>clock = 0, db = three_hourly, outbox = [], printed = []\<rparr>) = [DeliveryError]
   \<and> clock (tick (one_blocked (7::nat) 200 1)
               \<lparr>clock = 0, db = three_hourly, outbox = [], printed = []\<rparr>) = 61"
proof -
  let ?w = "\<lparr>clock = 0, db = three_hourly, outbox = [], printed = []\<rparr> :: nat world"
  let ?env = "one_blocked (7::nat) 200 1"
  have due: "due_hourly (clock ?w) (db ?w) @ due_daily (clock ?w) (db ?w) = [100] @ 200 # [300]"
    by (simp add: due_hourly_def due_daily_def minute_of_def distinct_chats_hourly_def
        distinct_chats_daily_def sql_distinct_def three_hourly_def)
  have e1: "get_rates ?env = Inr 7" and e2: "connect ?env = None"
    and e3: "query_hourly ?env = None" and e4: "query_daily ?env = None"
    by (simp_all add: one_blocked_def all_fine_def)
  have e5: "\<forall>b \<in> set [100]. send_message ?env b = None"
    by (simp add: one_blocked_def all_fine_def blocked_by_def)
  have e6: "send_message ?env 200 = Some DeliveryError"
    by (simp add: one_blocked_def all_fine_def blocked_by_def)
  show ?thesis
    using due send_failure_ends_tick [OF e1 e2 e3 e4 due e5 e6, of "[]"]
    by (simp add: one_blocked_def all_fine_def)
qed

text \<open>
  C1 as stated fails: three chats are due, the second has blocked the bot, and the third
  is never sent to in that tick.
\<close>

theorem delivery_isolation_counterexample:
  "due_hourly 0 three_hourly @ due_daily 0 three_hourly = [100, 200, 300]
   \<and> outbox (tick (one_blocked (7::nat) 200 1)
               \<lparr>clock = 0, db = three_hourly, outbox = [], printed = []\<rparr>) =
       [(100, 7, None), (200, 7, Some DeliveryError)]"
  by (simp add: due_hourly_def due_daily_def minute_of_def distinct_chats_hourly_def
      distinct_chats_daily_def sql_distinct_def three_hourly_def tick_def tick_body_def
      one_blocked_def all_fine_def blocked_by_def)


section \<open>A snapshot that cannot be fetched\<close>

lemma db_tick: "db (tick env w) = db w"
  by (simp add: tick_def split: prod.splits)

lemma clock_tick: "clock (tick env w) = clock w + elapsed env + 60"
  by (simp add: tick_def split: prod.splits)

lemma outbox_tick: "outbox (tick env w) = outbox w @ snd (tick_body env (clock w) (db w))"
  by (simp add: tick_def split: prod.splits)

lemma printed_tick:
  "printed (tick env w) =
     printed w @ (case fst (tick_body env (clock w) (db w)) of None \<Rightarrow> [] | Some e \<Rightarrow> [e])"
  by (simp add: tick_def split: prod.splits)

text \<open>
  C6. When \<open>get_rates\<close> raises, the tick calls \<open>send_message\<close> for nobody and leaves the
  database as it was; the exception is printed; and the tick after the sleep sends what
  the table and the clock of that moment give, whatever failed before.
\<close>

theorem fetch_failure_skips_tick:
  assumes "get_rates env = Inl e"
  shows "outbox (tick env w) = outbox w
         \<and> db (tick env w) = db w
         \<and> printed (tick env w) = printed w @ [e]
         \<and> clock (tick env w) = clock w + elapsed env + 60
         \<and> outbox (notifier_loop [env, env'] w) =
             outbox w @ snd (tick_body env' (clock w + elapsed env + 60) (db w))"
proof -
  have body: "tick_body env (clock w) (db w) = (Some e, [])"
    using assms by (rule tick_body_fetch_failed)
  have o: "outbox (tick env w) = outbox w"
    by (simp add: outbox_tick body)
  have p: "printed (tick env w) = printed w @ [e]"
    by (simp add: printed_tick body)
  have "outbox (notifier_loop [env, env'] w) =
          outbox (tick env w) @ snd (tick_body env' (clock (tick env w)) (db (tick env w)))"
    by (simp add: outbox_tick)
  then have n: "outbox (notifier_loop [env, env'] w) =
             outbox w @ snd (tick_body env' (clock w + elapsed env + 60) (db w))"
    by (simp only: o db_tick clock_tick)
  from o p n show ?thesis
    by (simp add: db_tick clock_tick)
qed

theorem fetch_failure_skips_tick_witness:
  "get_rates (fetch_fails 2 :: nat tick_env) = Inl FetchError
   \<and> outbox (tick (fetch_fails 2 :: nat tick_env)
               \<lparr>clock = 0, db = three_hourly, outbox = [], printed = []\<rparr>) = []
   \<and> printed (tick (fetch_fails 2 :: nat tick_env)
               \<lparr>clock = 0, db = three_hourly, outbox = [], printed = []\<rparr>) = [FetchError]
   \<and> clock (tick (fetch_fails 2 :: nat tick_env)
               \<lparr>clock = 0, db = three_hourly, outbox = [], printed = []\<rparr>) = 62"
proof -
  have f: "get_rates (fetch_fails 2 :: nat tick_env) = Inl FetchError"
    by (simp add: fetch_fails_def)
  show ?thesis
    using f fetch_failure_skips_tick [OF f,
        of "\<lparr>clock = 0, db = three_hourly, outbox = [], printed = []\<rparr>"]
    by (simp add: fetch_fails_def)
qed


section \<open>The loop goes on\<close>

lemma notifier_loop_append:
  "notifier_loop (envs @ envs') w = notifier_loop envs' (notifier_loop envs w)"
  by (induction envs arbitrary: w) simp_all

lemma clock_notifier_loop:
  "clock (notifier_loop envs w) = clock w + (\<Sum>env\<leftarrow>envs. elapsed env + 60)"
  by (induction envs arbitrary: w) (simp_all add: clock_tick)

lemma db_notifier_loop: "db (notifier_loop envs w) = db w"
  by (induction envs arbitrary: w) (simp_all add: db_tick)

lemma length_tick_starts: "length (tick_starts envs w) = length envs"
  by (induction envs arbitrary: w) simp_all

text \<open>
  C7. Whatever exception leaves the body of a tick (from the fetch, from the database or
  from a delivery), it is printed, the loop sleeps, and the next tick runs: after any
  number of ticks, failed or not, the remaining ones are run, each with its sleep.
\<close>

theorem notifier_loop_never_stops:
  "(fst (tick_body env (clock w) (db w)) = Some e \<longrightarrow>
      printed (tick env w) = printed w @ [e]
      \<and> clock (tick env w) = clock w + elapsed env + 60
      \<and> notifier_loop (env # envs) w = notifier_loop envs (tick env w))
   \<and> notifier_loop (envs @ env # envs') w = notifier_loop envs' (tick env (notifier_loop envs w))
   \<and> clock (notifier_loop envs w) = clock w + (\<Sum>env\<leftarrow>envs. elapsed env + 60)
   \<and> length (tick_starts envs w) = length envs"
proof (intro conjI impI)
  show "notifier_loop (envs @ env # envs') w = notifier_loop envs' (tick env (notifier_loop envs w))"
    by (simp add: notifier_loop_append)
  show "clock (notifier_loop envs w) = clock w + (\<Sum>env\<leftarrow>envs. elapsed env + 60)"
    by (rule clock_notifier_loop)
  show "length (tick_starts envs w) = length envs"
    by (rule length_tick_starts)
  assume "fst (tick_body env (clock w) (db w)) = Some e"
  then show "printed (tick env w) = printed w @ [e]"
    by (simp add: printed_tick)
  show "clock (tick env w) = clock w + elapsed env + 60"
    by (rule clock_tick)
  show "notifier_loop (env # envs) w = notifier_loop envs (tick env w)"
    by simp
qed

theorem notifier_loop_never_stops_witness:
  "fst (tick_body (fetch_fails 2 :: nat tick_env) 0 three_hourly) = Some FetchError
   \<and> printed (notifier_loop [fetch_fails 2, one_blocked (7::nat) 200 1, all_fine 7 1]
       \<lparr>clock = 0, db = three_hourly, outbox = [], printed = []\<rparr>) = [FetchError]
   \<and> clock (notifier_loop [fetch_fails 2, one_blocked (7::nat) 200 1, all_fine 7 1]
       \<lparr>clock = 0, db = three_hourly, outbox = [], printed = []\<rparr>) = 184"
proof -
  let ?w = "\<lparr>clock = 0, db = three_hourly, outbox = [], printed = []\<rparr> :: nat world"
  have f: "fst (tick_body (fetch_fails 2 :: nat tick_env) (clock ?w) (db ?w)) = Some FetchError"
    by (simp add: tick_body_def fetch_fails_def)
  have p: "printed (notifier_loop [fetch_fails 2, one_blocked (7::nat) 200 1, all_fine 7 1] ?w)
             = [FetchError]"
    by (simp add: tick_def tick_body_def fetch_fails_def one_blocked_def all_fine_def
        minute_of_def strftime_HM_def fmt_02d_def dec.simps hour_of_def digit_char_def
        distinct_chats_daily_def distinct_chats_hourly_def sql_distinct_def three_hourly_def)
  show ?thesis
    using f p notifier_loop_never_stops
      [where env = "fetch_fails 2 :: nat tick_env" and w = ?w and e = FetchError
         and envs = "[fetch_fails 2, one_blocked (7::nat) 200 1, all_fine 7 1]"
         and envs' = "[]"]
    by (simp add: fetch_fails_def one_blocked_def all_fine_def)
qed


section \<open>The period of the loop\<close>

lemma tick_starts_lower: "t \<in> set (tick_starts envs w) \<Longrightarrow> clock w \<le> t"
proof (induction envs arbitrary: w)
  case Nil
  then show ?case by simp
next
  case (Cons env envs)
  from Cons.prems have "t = clock w \<or> t \<in> set (tick_starts envs (tick env w))"
    by auto
  then show ?case
  proof
    assume "t = clock w"
    then show ?thesis by simp
  next
    assume "t \<in> set (tick_starts envs (tick env w))"
    then have "clock (tick env w) \<le> t" by (rule Cons.IH)
    then show ?thesis by (simp add: clock_tick)
  qed
qed

lemma later_minute: "a + d + 60 \<le> t \<Longrightarrow> a div 60 < t div (60::nat)"
proof -
  assume "a + d + 60 \<le> t"
  then have "(a + 60) div 60 \<le> t div 60"
    by (intro div_le_mono) simp
  then show ?thesis by simp
qed

lemma minutes_increase: "sorted_wrt (<) (map (\<lambda>t. t div 60) (tick_starts envs w))"
proof (induction envs arbitrary: w)
  case Nil
  show ?case by simp
next
  case (Cons env envs)
  have "clock w div 60 < t div 60" if "t \<in> set (tick_starts envs (tick env w))" for t
  proof -
    from that have "clock (tick env w) \<le> t" by (rule tick_starts_lower)
    then have "clock w + elapsed env + 60 \<le> t" by (simp add: clock_tick)
    then show ?thesis by (rule later_minute)
  qed
  with Cons.IH [of "tick env w"] show ?case by auto
qed

lemma minutes_all_when_instant:
  "\<forall>env \<in> set envs. elapsed env = 0 \<Longrightarrow>
   map (\<lambda>t. t div 60) (tick_starts envs w) = [clock w div 60 ..< clock w div 60 + length envs]"
proof (induction envs arbitrary: w)
  case Nil
  show ?case by simp
next
  case (Cons env envs)
  then have z: "elapsed env = 0" and rest: "\<forall>env \<in> set envs. elapsed env = 0"
    by simp_all
  have next_minute: "clock (tick env w) div 60 = clock w div 60 + 1"
    using z by (simp add: clock_tick)
  have tl: "map (\<lambda>t. t div 60) (tick_starts envs (tick env w)) =
          [clock w div 60 + 1 ..< clock w div 60 + 1 + length envs]"
    using Cons.IH [OF rest, of "tick env w"] by (simp only: next_minute)
  have "[clock w div 60 ..< clock w div 60 + length (env # envs)] =
          clock w div 60 # [clock w div 60 + 1 ..< clock w div 60 + 1 + length envs]"
    by (subst upt_conv_Cons) simp_all
  with tl show ?case
    by simp
qed

text \<open>
  C3, as the code has it. The sleep of 60 seconds starts when the body of the tick ends,
  so the next tick reads the clock 60 seconds plus the duration of the body later. Two
  ticks never read the same minute; every minute is read once as long as the bodies take
  no time.
\<close>

theorem tick_period:
  "clock (tick env w) = clock w + elapsed env + 60
   \<and> clock w div 60 < clock (tick env w) div 60
   \<and> sorted_wrt (<) (map (\<lambda>t. t div 60) (tick_starts envs w))
   \<and> ((\<forall>env \<in> set envs. elapsed env = 0) \<longrightarrow>
        map (\<lambda>t. t div 60) (tick_starts envs w) =
          [clock w div 60 ..< clock w div 60 + length envs])"
proof (intro conjI impI)
  show c: "clock (tick env w) = clock w + elapsed env + 60"
    by (rule clock_tick)
  show "clock w div 60 < clock (tick env w) div 60"
    unfolding c by (rule later_minute [of _ "elapsed env"]) simp
  show "sorted_wrt (<) (map (\<lambda>t. t div 60) (tick_starts envs w))"
    by (rule minutes_increase)
  assume "\<forall>env \<in> set envs. elapsed env = 0"
  then show "map (\<lambda>t. t div 60) (tick_starts envs w) =
          [clock w div 60 ..< clock w div 60 + length envs]"
    by (rule minutes_all_when_instant)
qed

theorem tick_period_witness:
  "elapsed (all_fine (7::nat) 0) = 0
   \<and> map (\<lambda>t. t div 60)
       (tick_starts [all_fine (7::nat) 0, all_fine 7 0, all_fine 7 0]
          \<lparr>clock = 59, db = shared_daily, outbox = [], printed = []\<rparr>) = [0, 1, 2]"
proof -
  have z: "\<forall>env \<in> set [all_fine (7::nat) 0, all_fine 7 0, all_fine 7 0]. elapsed env = 0"
    by (simp add: all_fine_def)
  have u: "[0 ..< 3] = [0, 1, 2::nat]"
    by (simp add: upt_conv_Cons)
  show ?thesis
    using z u tick_period [of "all_fine (7::nat) 0"
        "\<lparr>clock = 59, db = shared_daily, outbox = [], printed = []\<rparr>"
        "[all_fine (7::nat) 0, all_fine 7 0, all_fine 7 0]"]
    by simp
qed

text \<open>
  C3 as stated fails: a tick that starts at 00:00:59 and takes one second is followed by
  the tick of 00:02:00; no tick reads minute 00:01, and the daily subscription of that
  minute is not served.
\<close>

theorem fixed_period_counterexample:
  "tick_starts [all_fine (7::nat) 1, all_fine 7 1]
     \<lparr>clock = 59, db = shared_daily, outbox = [], printed = []\<rparr> = [59, 120]
   \<and> due_daily 60 shared_daily = [100] \<and> due_daily 119 shared_daily = [100]
   \<and> outbox (notifier_loop [all_fine (7::nat) 1, all_fine 7 1]
       \<lparr>clock = 59, db = shared_daily, outbox = [], printed = []\<rparr>) = []"
  by (simp add: tick_def tick_body_def all_fine_def due_daily_def
      minute_of_def strftime_HM_def fmt_02d_def dec.simps hour_of_def digit_char_def
      distinct_chats_daily_def distinct_chats_hourly_def sql_distinct_def shared_daily_def)


section \<open>The argument of \<^verbatim>\<open>/subscribe_daily\<close>\<close>

lemma split_sep_none:
  "count_list s sep = 0 \<Longrightarrow> split_sep sep cur s = [cur @ s]"
  by (induction s arbitrary: cur) (auto split: if_splits)

lemma split_sep_one:
  "count_list s sep = 1 \<Longrightarrow>
   split_sep sep cur s =
     [cur @ takeWhile (\<lambda>c. c \<noteq> sep) s, tl (dropWhile (\<lambda>c. c \<noteq> sep) s)]"
proof (induction s arbitrary: cur)
  case Nil
  then show ?case by simp
next
  case (Cons c cs)
  show ?case
  proof (cases "c = sep")
    case True
    with Cons.prems have "count_list cs sep = 0" by simp
    with True show ?thesis by (simp add: split_sep_none)
  next
    case False
    with Cons.prems have "count_list cs sep = 1" by simp
    with False Cons.IH [of "cur @ [c]"] show ?thesis by simp
  qed
qed

lemma decimal_char_isdigit: "decimal_char u c \<Longrightarrow> isdigit_char u c"
  by (simp add: decimal_char_def isdigit_char_def)

lemma decimal_chars_isdigit: "s \<noteq> [] \<Longrightarrow> list_all (decimal_char u) s \<Longrightarrow> isdigit u s"
  by (auto simp: isdigit_def list_all_iff decimal_char_isdigit)

lemma py_int_Inr:
  "py_int u s = Inr n \<longleftrightarrow> s \<noteq> [] \<and> list_all (decimal_char u) s \<and> n = dec_value u s"
  by (auto simp: py_int_def)

lemma py_int_Inl: "py_int u s = Inl e \<Longrightarrow> e = ValueError"
  by (auto simp: py_int_def split: if_splits)

lemma hour_of_HM: "m \<le> 59 \<Longrightarrow> h \<le> 23 \<Longrightarrow> hour_of (3600 * h + 60 * m) = h"
  by (simp add: hour_of_def)

lemma minute_of_HM: "m \<le> 59 \<Longrightarrow> minute_of (3600 * h + 60 * m) = m"
proof -
  assume m: "m \<le> 59"
  have "(3600 * h + 60 * m) div 60 = 60 * h + m" by simp
  then show ?thesis using m by (simp add: minute_of_def)
qed

lemma strftime_HM_of:
  "h \<le> 23 \<Longrightarrow> m \<le> 59 \<Longrightarrow> strftime_HM (3600 * h + 60 * m) = fmt_02d h @ '':'' @ fmt_02d m"
  by (simp add: strftime_HM_def hour_of_HM minute_of_HM)

lemma cmd_subscribe_daily_no_colon:
  assumes "py_split u t = cmd # arg # rest" and "count_list arg colon \<noteq> 1"
  shows "cmd_subscribe_daily u (Some t) uid cid now s = Inr (AskFormat, s)"
  using assms by (simp add: cmd_subscribe_daily_def)

lemma cmd_subscribe_daily_one_colon:
  assumes "py_split u t = cmd # arg # rest" and "count_list arg colon = 1"
    and "hh = takeWhile (\<lambda>c. c \<noteq> colon) arg"
    and "mm = tl (dropWhile (\<lambda>c. c \<noteq> colon) arg)"
  shows "cmd_subscribe_daily u (Some t) uid cid now s =
     (if \<not> (isdigit u hh \<and> isdigit u mm) then Inr (AskNumbers, s)
      else
        (case py_int u hh of
           Inl e \<Rightarrow> Inl e
         | Inr h \<Rightarrow>
             (case py_int u mm of
                Inl e \<Rightarrow> Inl e
              | Inr m \<Rightarrow>
                  if \<not> (h \<le> 23 \<and> m \<le> 59) then Inr (AskRange, s)
                  else
                    (case add_sub uid cid ''daily'' (Some (fmt_02d h @ '':'' @ fmt_02d m)) now s of
                       Inl e \<Rightarrow> Inl e
                     | Inr s' \<Rightarrow> Inr (Confirmed (fmt_02d h @ '':'' @ fmt_02d m), s')))))"
proof -
  have "split_sep colon [] arg = [hh, mm]"
    using assms(2-4) split_sep_one [of arg colon "[]"] by simp
  with assms(1,2) show ?thesis
    by (simp add: cmd_subscribe_daily_def)
qed

lemma cmd_subscribe_daily_accepted:
  assumes "py_split u t = cmd # arg # rest" and "accepts_HH_MM u arg"
  shows "cmd_subscribe_daily u (Some t) uid cid now s =
     Inr (Confirmed (strftime_HM (3600 * hour_part u arg + 60 * minute_part u arg)),
          \<lparr>subs = filter (\<lambda>r. \<not> (user_id r = uid \<and> kind r = Daily)) (subs s) @
                   [\<lparr>row_id = last_id s + 1, user_id = uid, chat_id = cid, kind = Daily,
                     daily_time =
                       Some (strftime_HM (3600 * hour_part u arg + 60 * minute_part u arg)),
                     created_at = now\<rparr>],
            last_id = last_id s + 1\<rparr>)"
proof -
  define hh where "hh = takeWhile (\<lambda>c. c \<noteq> colon) arg"
  define mm where "mm = tl (dropWhile (\<lambda>c. c \<noteq> colon) arg)"
  from assms(2) have one: "count_list arg colon = 1"
    and hh: "hh \<noteq> []" "list_all (decimal_char u) hh"
    and mm: "mm \<noteq> []" "list_all (decimal_char u) mm"
    and range: "dec_value u hh \<le> 23" "dec_value u mm \<le> 59"
    by (simp_all add: accepts_HH_MM_def Let_def hh_def mm_def)
  have dig: "isdigit u hh" "isdigit u mm"
    using hh mm by (simp_all add: decimal_chars_isdigit)
  have ints: "py_int u hh = Inr (dec_value u hh)" "py_int u mm = Inr (dec_value u mm)"
    using hh mm by (simp_all add: py_int_Inr)
  have time: "fmt_02d (dec_value u hh) @ '':'' @ fmt_02d (dec_value u mm) =
                strftime_HM (3600 * hour_part u arg + 60 * minute_part u arg)"
    using range by (simp add: strftime_HM_of hour_part_def minute_part_def hh_def mm_def)
  have "cmd_subscribe_daily u (Some t) uid cid now s =
          (case add_sub uid cid ''daily''
                  (Some (fmt_02d (dec_value u hh) @ '':'' @ fmt_02d (dec_value u mm))) now s of
             Inl e \<Rightarrow> Inl e
           | Inr s' \<Rightarrow>
               Inr (Confirmed (fmt_02d (dec_value u hh) @ '':'' @ fmt_02d (dec_value u mm)), s'))"
    using cmd_subscribe_daily_one_colon [OF assms(1) one hh_def mm_def, of uid cid now s]
      dig ints range
    by simp
  also have "\<dots> =
     Inr (Confirmed (fmt_02d (dec_value u hh) @ '':'' @ fmt_02d (dec_value u mm)),
          \<lparr>subs = filter (\<lambda>r. \<not> (user_id r = uid \<and> kind r = Daily)) (subs s) @
                   [\<lparr>row_id = last_id s + 1, user_id = uid, chat_id = cid, kind = Daily,
                     daily_time =
                       Some (fmt_02d (dec_value u hh) @ '':'' @ fmt_02d (dec_value u mm)),
                     created_at = now\<rparr>],
            last_id = last_id s + 1\<rparr>)"
    by (simp add: add_sub_daily)
  finally show ?thesis
    by (simp only: time)
qed

lemma cmd_subscribe_daily_refused:
  assumes "py_split u t = cmd # arg # rest" and "\<not> accepts_HH_MM u arg"
  shows "cmd_subscribe_daily u (Some t) uid cid now s
           \<in> {Inr (AskFormat, s), Inr (AskNumbers, s), Inr (AskRange, s), Inl ValueError}"
proof (cases "count_list arg colon = 1")
  case False
  with assms(1) show ?thesis
    by (simp add: cmd_subscribe_daily_no_colon)
next
  case True
  define hh where "hh = takeWhile (\<lambda>c. c \<noteq> colon) arg"
  define mm where "mm = tl (dropWhile (\<lambda>c. c \<noteq> colon) arg)"
  note unfold = cmd_subscribe_daily_one_colon [OF assms(1) True hh_def mm_def, of uid cid now s]
  show ?thesis
  proof (cases "isdigit u hh \<and> isdigit u mm")
    case False
    with unfold show ?thesis by auto
  next
    case dig: True
    show ?thesis
    proof (cases "py_int u hh")
      case (Inl e)
      with unfold dig py_int_Inl [OF Inl] show ?thesis by simp
    next
      case h: (Inr h)
      show ?thesis
      proof (cases "py_int u mm")
        case (Inl e)
        with unfold dig h py_int_Inl [OF Inl] show ?thesis by simp
      next
        case m: (Inr m)
        from h m have "hh \<noteq> []" "list_all (decimal_char u) hh" "h = dec_value u hh"
          and "mm \<noteq> []" "list_all (decimal_char u) mm" "m = dec_value u mm"
          by (simp_all add: py_int_Inr)
        with assms(2) True have "\<not> (h \<le> 23 \<and> m \<le> 59)"
          by (auto simp: accepts_HH_MM_def Let_def hh_def mm_def)
        with unfold dig h m show ?thesis by simp
      qed
    qed
  qed
qed

text \<open>
  C10. Whatever the characters of the message and whatever the character database, an
  argument is stored as a daily subscription exactly when it has one colon, decimal digits
  (of any script) on both sides, an hour up to 23 and a minute up to 59; any other argument
  leaves the table as it was. The stored time is the rendering \<^verbatim>\<open>%H:%M\<close> of that hour and
  minute, so the chat is among the due daily chats when the clock reads that minute.
\<close>

theorem subscribe_daily_stores_valid_times:
  assumes "py_split u t = cmd # arg # rest"
  shows "((\<exists>x s'. cmd_subscribe_daily u (Some t) uid cid now s = Inr (Confirmed x, s'))
            \<longleftrightarrow> accepts_HH_MM u arg)
    \<and> (accepts_HH_MM u arg \<longrightarrow>
          (\<exists>s'. cmd_subscribe_daily u (Some t) uid cid now s =
                  Inr (Confirmed
                         (strftime_HM (3600 * hour_part u arg + 60 * minute_part u arg)), s')
             \<and> subs s' =
                  filter (\<lambda>r. \<not> (user_id r = uid \<and> kind r = Daily)) (subs s) @
                  [\<lparr>row_id = last_id s + 1, user_id = uid, chat_id = cid, kind = Daily,
                    daily_time =
                      Some (strftime_HM (3600 * hour_part u arg + 60 * minute_part u arg)),
                    created_at = now\<rparr>]
             \<and> hour_part u arg \<le> 23 \<and> minute_part u arg \<le> 59
             \<and> cid \<in> set (due_daily (3600 * hour_part u arg + 60 * minute_part u arg) s')))
    \<and> (\<not> accepts_HH_MM u arg \<longrightarrow>
          cmd_subscribe_daily u (Some t) uid cid now s
            \<in> {Inr (AskFormat, s), Inr (AskNumbers, s), Inr (AskRange, s), Inl ValueError})"
proof (intro conjI impI iffI)
  show "cmd_subscribe_daily u (Some t) uid cid now s
            \<in> {Inr (AskFormat, s), Inr (AskNumbers, s), Inr (AskRange, s), Inl ValueError}"
    if "\<not> accepts_HH_MM u arg"
    using assms that by (rule cmd_subscribe_daily_refused)
  show "accepts_HH_MM u arg"
    if "\<exists>x s'. cmd_subscribe_daily u (Some t) uid cid now s = Inr (Confirmed x, s')"
  proof (rule ccontr)
    assume "\<not> accepts_HH_MM u arg"
    with assms have "cmd_subscribe_daily u (Some t) uid cid now s
            \<in> {Inr (AskFormat, s), Inr (AskNumbers, s), Inr (AskRange, s), Inl ValueError}"
      by (rule cmd_subscribe_daily_refused)
    with that show False by auto
  qed
  show "\<exists>x s'. cmd_subscribe_daily u (Some t) uid cid now s = Inr (Confirmed x, s')"
    if "accepts_HH_MM u arg"
    using cmd_subscribe_daily_accepted [OF assms that, of uid cid now s] by blast
  show "\<exists>s'. cmd_subscribe_daily u (Some t) uid cid now s =
                  Inr (Confirmed
                         (strftime_HM (3600 * hour_part u arg + 60 * minute_part u arg)), s')
             \<and> subs s' =
                  filter (\<lambda>r. \<not> (user_id r = uid \<and> kind r = Daily)) (subs s) @
                  [\<lparr>row_id = last_id s + 1, user_id = uid, chat_id = cid, kind = Daily,
                    daily_time =
                      Some (strftime_HM (3600 * hour_part u arg + 60 * minute_part u arg)),
                    created_at = now\<rparr>]
             \<and> hour_part u arg \<le> 23 \<and> minute_part u arg \<le> 59
             \<and> cid \<in> set (due_daily (3600 * hour_part u arg + 60 * minute_part u arg) s')"
    if acc: "accepts_HH_MM u arg"
  proof -
    let ?T = "strftime_HM (3600 * hour_part u arg + 60 * minute_part u arg)"
    let ?new = "\<lparr>row_id = last_id s + 1, user_id = uid, chat_id = cid, kind = Daily,
                 daily_time = Some ?T, created_at = now\<rparr>"
    let ?s' = "\<lparr>subs = filter (\<lambda>r. \<not> (user_id r = uid \<and> kind r = Daily)) (subs s) @ [?new],
               last_id = last_id s + 1\<rparr>"
    have res: "cmd_subscribe_daily u (Some t) uid cid now s = Inr (Confirmed ?T, ?s')"
      using assms acc by (rule cmd_subscribe_daily_accepted)
    have range: "hour_part u arg \<le> 23" "minute_part u arg \<le> 59"
      using acc by (simp_all add: accepts_HH_MM_def Let_def hour_part_def minute_part_def)
    have "?new \<in> {r \<in> set (subs ?s'). kind r = Daily \<and> daily_time r = Some ?T}"
      by simp
    then have "chat_id ?new \<in>
        chat_id ` {r \<in> set (subs ?s'). kind r = Daily \<and> daily_time r = Some ?T}"
      by (rule imageI)
    then have due: "cid \<in> set (due_daily (3600 * hour_part u arg + 60 * minute_part u arg) ?s')"
      by (simp only: set_due_daily) simp
    show ?thesis
      by (rule exI [of _ ?s']) (use res range due in simp)
  qed
qed

lemma split_9_5:
  "py_split ucd_part (ascii ''/subscribe_daily 9:5'') =
     ascii ''/subscribe_daily'' # [57, 58, 53] # []"
  by (simp add: py_split_def ascii_def ucd_part_def)

lemma split_arabic_indic:
  "py_split ucd_part (ascii ''/subscribe_daily '' @ [1632, 1641, 58, 1635, 1632]) =
     ascii ''/subscribe_daily'' # [1632, 1641, 58, 1635, 1632] # []"
  by (simp add: py_split_def ascii_def ucd_part_def)

lemma accepts_9_5: "accepts_HH_MM ucd_part [57, 58, 53]"
  by (simp add: accepts_HH_MM_def colon_def decimal_char_def dec_value_def digit_value_def
      ucd_part_def)

lemma accepts_arabic_indic: "accepts_HH_MM ucd_part [1632, 1641, 58, 1635, 1632]"
  by (simp add: accepts_HH_MM_def colon_def decimal_char_def dec_value_def digit_value_def
      ucd_part_def)

lemma strftime_HM_examples:
  "strftime_HM 32700 = ''09:05''" "strftime_HM 34200 = ''09:30''"
  by (simp_all add: strftime_HM_def fmt_02d_def dec.simps hour_of_def minute_of_def
      digit_char_def)

lemma parts_examples:
  "3600 * hour_part ucd_part [57, 58, 53] + 60 * minute_part ucd_part [57, 58, 53] = 32700"
  "3600 * hour_part ucd_part [1632, 1641, 58, 1635, 1632] +
     60 * minute_part ucd_part [1632, 1641, 58, 1635, 1632] = 34200"
  by (simp_all add: hour_part_def minute_part_def colon_def dec_value_def digit_value_def
      ucd_part_def)

text \<open>
  The argument \<^verbatim>\<open>9:5\<close> is stored as \<^verbatim>\<open>09:05\<close>, and the argument written with the
  Arabic-Indic digits zero, nine, colon, three, zero is stored as \<^verbatim>\<open>09:30\<close>.
\<close>

theorem subscribe_daily_stores_valid_times_witness:
  "accepts_HH_MM ucd_part [57, 58, 53]
   \<and> (\<exists>s'. cmd_subscribe_daily ucd_part (Some (ascii ''/subscribe_daily 9:5'')) 1 100 0
              init_db = Inr (Confirmed ''09:05'', s')
         \<and> subs s' = [\<lparr>row_id = 1, user_id = 1, chat_id = 100, kind = Daily,
                         daily_time = Some ''09:05'', created_at = 0\<rparr>]
         \<and> 100 \<in> set (due_daily 32700 s'))
   \<and> accepts_HH_MM ucd_part [1632, 1641, 58, 1635, 1632]
   \<and> (\<exists>s'. cmd_subscribe_daily ucd_part
              (Some (ascii ''/subscribe_daily '' @ [1632, 1641, 58, 1635, 1632])) 1 100 0
              init_db = Inr (Confirmed ''09:30'', s')
         \<and> subs s' = [\<lparr>row_id = 1, user_id = 1, chat_id = 100, kind = Daily,
                         daily_time = Some ''09:30'', created_at = 0\<rparr>]
         \<and> 100 \<in> set (due_daily 34200 s'))"
proof -
  have first: "\<exists>s'. cmd_subscribe_daily ucd_part (Some (ascii ''/subscribe_daily 9:5'')) 1 100 0
              init_db = Inr (Confirmed ''09:05'', s')
         \<and> subs s' = [\<lparr>row_id = 1, user_id = 1, chat_id = 100, kind = Daily,
                         daily_time = Some ''09:05'', created_at = 0\<rparr>]
         \<and> 100 \<in> set (due_daily 32700 s')"
    using accepts_9_5 strftime_HM_examples parts_examples
      subscribe_daily_stores_valid_times [OF split_9_5, of 1 100 0 init_db]
    by (auto simp: init_db_def)
  have second: "\<exists>s'. cmd_subscribe_daily ucd_part
              (Some (ascii ''/subscribe_daily '' @ [1632, 1641, 58, 1635, 1632])) 1 100 0
              init_db = Inr (Confirmed ''09:30'', s')
         \<and> subs s' = [\<lparr>row_id = 1, user_id = 1, chat_id = 100, kind = Daily,
                         daily_time = Some ''09:30'', created_at = 0\<rparr>]
         \<and> 100 \<in> set (due_daily 34200 s')"
    using accepts_arabic_indic strftime_HM_examples parts_examples
      subscribe_daily_stores_valid_times [OF split_arabic_indic, of 1 100 0 init_db]
    by (auto simp: init_db_def)
  show ?thesis
    using accepts_9_5 accepts_arabic_indic first second by simp
qed

end
